theory Spec2Isabelle
  imports Complex_Main "HOL-Library.List_Lexorder"
begin

section \<open>Python values used by the program\<close>

text \<open>
  A Python \<open>str\<close> is a sequence of Unicode code points. The program's templates hold an
  em dash (U+2014) and its strip set a bullet (U+2022), which do not fit an 8-bit
  character, so a string is a list of code points. \<open>asc\<close> writes an ASCII literal.
\<close>

type_synonym pystr = "nat list"

definition asc :: "string \<Rightarrow> pystr" where
  "asc s = map of_char s"

text \<open>The exceptions the modelled code raises or receives from its libraries.\<close>

datatype error =
    RuntimeError pystr
  | FileNotFoundError pystr
  | ZeroDivisionError
  | UnidentifiedImageError
  | LibraryError pystr

text \<open>\<open>str(n)\<close> for an integer, and the format \<open>{k:02d}\<close> for a non-negative one.\<close>

fun dec_digits :: "nat \<Rightarrow> pystr" where
  "dec_digits n = (if n < 10 then [48 + n] else dec_digits (n div 10) @ [48 + n mod 10])"

declare dec_digits.simps [simp del]

definition str_int :: "int \<Rightarrow> pystr" where
  "str_int i = (if i < 0 then 45 # dec_digits (nat (- i)) else dec_digits (nat i))"

definition fmt_02d :: "nat \<Rightarrow> pystr" where
  "fmt_02d k = replicate (2 - length (dec_digits k)) 48 @ dec_digits k"

text \<open>
  The slice \<open>xs[:n]\<close>: a negative bound counts from the end, and no bound is out of range.
\<close>

definition slice_to :: "'a list \<Rightarrow> int \<Rightarrow> 'a list" where
  "slice_to xs n = (if 0 \<le> n then take (nat n) xs else take (nat (int (length xs) + n)) xs)"

text \<open>
  \<open>str.splitlines()\<close>: a line ends at LF, VT, FF, CR (CR LF counts once), FS, GS, RS, NEL,
  LS or PS; the terminators are dropped and no empty last line is produced.
\<close>

definition is_linebreak :: "nat \<Rightarrow> bool" where
  "is_linebreak c \<longleftrightarrow> c \<in> {10, 11, 12, 13, 28, 29, 30, 133, 8232, 8233}"

fun splitlines_from :: "pystr \<Rightarrow> pystr \<Rightarrow> pystr list" where
  "splitlines_from cur [] = (if cur = [] then [] else [cur])"
| "splitlines_from cur (c # cs) =
     (if c = 13 \<and> cs \<noteq> [] \<and> hd cs = 10 then cur # splitlines_from [] (tl cs)
      else if is_linebreak c then cur # splitlines_from [] cs
      else splitlines_from (cur @ [c]) cs)"

definition splitlines :: "pystr \<Rightarrow> pystr list" where
  "splitlines s = splitlines_from [] s"

text \<open>
  \<open>str.strip()\<close> removes leading and trailing white space (the code points for which
  \<open>str.isspace\<close> holds); \<open>str.strip(chars)\<close> removes the code points of \<open>chars\<close>.
\<close>

definition is_space :: "nat \<Rightarrow> bool" where
  "is_space c \<longleftrightarrow>
     (9 \<le> c \<and> c \<le> 13) \<or> (28 \<le> c \<and> c \<le> 32) \<or> c = 133 \<or> c = 160 \<or> c = 5760 \<or>
     (8192 \<le> c \<and> c \<le> 8202) \<or> c = 8232 \<or> c = 8233 \<or> c = 8239 \<or> c = 8287 \<or> c = 12288"

definition strip_where :: "(nat \<Rightarrow> bool) \<Rightarrow> pystr \<Rightarrow> pystr" where
  "strip_where P s = rev (dropWhile P (rev (dropWhile P s)))"

definition strip :: "pystr \<Rightarrow> pystr" where
  "strip s = strip_where is_space s"

definition strip_chars :: "pystr \<Rightarrow> pystr \<Rightarrow> pystr" where
  "strip_chars chars s = strip_where (\<lambda>c. c \<in> set chars) s"

text \<open>
  Splitting at every code point that satisfies \<open>P\<close>, as \<open>re.split\<close> does for a pattern
  that is one character class, and as a text file is cut into lines at LF: empty pieces
  between neighbouring separators and at both ends are kept.
\<close>

fun split_from :: "(nat \<Rightarrow> bool) \<Rightarrow> pystr \<Rightarrow> pystr \<Rightarrow> pystr list" where
  "split_from P cur [] = [cur]"
| "split_from P cur (c # cs) =
     (if P c then cur # split_from P [] cs else split_from P (cur @ [c]) cs)"

definition split_where :: "(nat \<Rightarrow> bool) \<Rightarrow> pystr \<Rightarrow> pystr list" where
  "split_where P s = split_from P [] s"

text \<open>\<open>"\n".join(xs)\<close>.\<close>

fun join_lf :: "pystr list \<Rightarrow> pystr" where
  "join_lf [] = []"
| "join_lf [x] = x"
| "join_lf (x # y # ys) = x @ 10 # join_lf (y # ys)"

section \<open>Caption Fallback Generator (adapters/caption\_llm\_adapter.py)\<close>

definition samples :: "pystr \<Rightarrow> pystr \<Rightarrow> pystr list" where
  "samples brand product =
     [brand @ asc '' '' @ product @ [32, 8212, 32] @ asc ''style meets performance.'',
      asc ''Upgrade your day with the '' @ product @ asc '' from '' @ brand @ asc ''.'',
      asc ''Feel the difference with '' @ brand @ [39] @ asc ''s '' @ product
        @ asc ''. Shop now!'',
      asc ''The '' @ product @ asc '' by '' @ brand @ [32, 8212, 32]
        @ asc ''crafted for comfort.'',
      asc ''Special offer: grab the '' @ product @ asc '' by '' @ brand @ asc '' today.'']"

text \<open>
  The loop \<open>for i in range(n): out.append(samples[idx % len(samples)]); idx += 1\<close>, with
  the rounds still to run as first argument (\<open>range(n)\<close> is empty for \<open>n \<le> 0\<close>).
\<close>

fun template_loop :: "nat \<Rightarrow> pystr list \<Rightarrow> pystr list \<Rightarrow> nat \<Rightarrow> pystr list" where
  "template_loop 0 smp out idx = out"
| "template_loop (Suc k) smp out idx =
     template_loop k smp (out @ [smp ! (idx mod length smp)]) (idx + 1)"

definition template_captions :: "pystr \<Rightarrow> pystr \<Rightarrow> int \<Rightarrow> pystr list" where
  "template_captions brand product n = template_loop (nat n) (samples brand product) [] 0"

section \<open>External Caption Adapter (adapters/caption\_llm\_adapter.py)\<close>

text \<open>
  The payload that \<open>resp.json()\<close> returns. A dictionary keeps its keys in insertion order
  and holds each key once.
\<close>

datatype json =
    JNull
  | JBool bool
  | JInt int
  | JFloat real
  | JStr pystr
  | JList "json list"
  | JDict "(pystr \<times> json) list"

text \<open>Truth value of a payload (\<open>if not data\<close>) and of an optional string (\<open>if not s\<close>).\<close>

fun truthy :: "json \<Rightarrow> bool" where
  "truthy JNull = False"
| "truthy (JBool b) = b"
| "truthy (JInt i) = (i \<noteq> 0)"
| "truthy (JFloat r) = (r \<noteq> 0)"
| "truthy (JStr s) = (s \<noteq> [])"
| "truthy (JList xs) = (xs \<noteq> [])"
| "truthy (JDict kvs) = (kvs \<noteq> [])"

fun str_truthy :: "pystr option \<Rightarrow> bool" where
  "str_truthy None = False"
| "str_truthy (Some s) = (s \<noteq> [])"

text \<open>\<open>a or b\<close> on optional strings.\<close>

definition py_or :: "pystr option \<Rightarrow> pystr option \<Rightarrow> pystr option" where
  "py_or a b = (if str_truthy a then a else b)"

text \<open>
  What the adapter reads from outside: the two environment variables, Python's \<open>str()\<close> of
  a payload that is not a string (\<open>str\<close> of a string is the string), and the outcome of \<open>requests.post(url, params={"key": key}, json=payload,
  timeout=20)\<close> followed by \<open>raise_for_status()\<close> and \<open>json()\<close>: the text of the exception
  raised (connection error, timeout, HTTP status, undecodable body) or the payload.
\<close>

record world =
  env_GEMINI_API_KEY :: "pystr option"
  env_GOOGLE_API_KEY :: "pystr option"
  py_str :: "json \<Rightarrow> pystr"
  requests_post :: "pystr \<Rightarrow> pystr \<Rightarrow> json \<Rightarrow> pystr + json"

record adapter =
  api_key :: "pystr option"
  url :: pystr

definition GEMINI_API_KEY :: "world \<Rightarrow> pystr option" where
  "GEMINI_API_KEY w = py_or (env_GEMINI_API_KEY w) (env_GOOGLE_API_KEY w)"

definition GeminiCaptionAdapter :: "world \<Rightarrow> pystr option \<Rightarrow> adapter" where
  "GeminiCaptionAdapter w key =
     \<lparr>api_key = py_or key (GEMINI_API_KEY w),
      url = asc ''https://generativelanguage.googleapis.com/v1/models/text-bison-001:generate''\<rparr>"

definition call_rest :: "world \<Rightarrow> adapter \<Rightarrow> pystr \<Rightarrow> int \<Rightarrow> error + json" where
  "call_rest w self prompt max_tokens =
     (case api_key self of
        None \<Rightarrow> Inl (RuntimeError (asc ''No GEMINI_API_KEY available''))
      | Some key \<Rightarrow>
          if key = [] then Inl (RuntimeError (asc ''No GEMINI_API_KEY available''))
          else
            let payload = JDict [(asc ''prompt'', JDict [(asc ''text'', JStr prompt)]),
                                 (asc ''maxOutputTokens'', JInt max_tokens),
                                 (asc ''temperature'', JFloat (8 / 10))]
            in case requests_post w (url self) key payload of
                 Inl e \<Rightarrow> Inl (RuntimeError (asc ''Generative REST call failed: '' @ e))
               | Inr data \<Rightarrow> Inr data)"

text \<open>
  \<open>for key in keys: if key in d and isinstance(d[key], str): return d[key]\<close>, and
  \<open>for v in data.values(): if isinstance(v, str) and len(v) > 10: return v\<close>.
\<close>

fun first_str_field :: "pystr list \<Rightarrow> (pystr \<times> json) list \<Rightarrow> pystr option" where
  "first_str_field [] d = None"
| "first_str_field (k # ks) d =
     (case map_of d k of Some (JStr s) \<Rightarrow> Some s | _ \<Rightarrow> first_str_field ks d)"

fun first_long_str :: "json list \<Rightarrow> pystr option" where
  "first_long_str [] = None"
| "first_long_str (v # vs) =
     (case v of
        JStr s \<Rightarrow> (if length s > 10 then Some s else first_long_str vs)
      | _ \<Rightarrow> first_long_str vs)"

definition candidates_text :: "(pystr \<times> json) list \<Rightarrow> pystr option" where
  "candidates_text d =
     (case map_of d (asc ''candidates'') of
        Some (JList (first # rest)) \<Rightarrow>
          (case first of
             JDict fd \<Rightarrow> first_str_field [asc ''content'', asc ''output'', asc ''text''] fd
           | JStr s \<Rightarrow> Some s
           | _ \<Rightarrow> None)
      | _ \<Rightarrow> None)"

definition extract_text_from_response :: "world \<Rightarrow> json \<Rightarrow> pystr option" where
  "extract_text_from_response w data =
     (if \<not> truthy data then None
      else case data of
        JDict d \<Rightarrow>
          (case candidates_text d of
             Some s \<Rightarrow> Some s
           | None \<Rightarrow>
              (case first_str_field [asc ''output'', asc ''text'', asc ''content''] d of
                 Some s \<Rightarrow> Some s
               | None \<Rightarrow>
                  (case first_long_str (map snd d) of
                     Some s \<Rightarrow> Some s
                   | None \<Rightarrow> Some (py_str w data))))
      | JStr s \<Rightarrow> Some s
      | _ \<Rightarrow> Some (py_str w data))"

definition prompt_text :: "pystr \<Rightarrow> pystr \<Rightarrow> int \<Rightarrow> pystr" where
  "prompt_text brand product n =
     asc ''You are a senior performance marketer and copywriter. ''
     @ asc ''Generate '' @ str_int n
     @ asc '' short, punchy marketing captions (4-12 words) for this product. ''
     @ asc ''Brand: '' @ brand @ asc ''. Product: '' @ product
     @ asc ''. Use active voice, include a short CTA, and return each caption on a new line.''"

text \<open>
  The lines of a usable response: \<open>[l.strip(" -\<bullet>\n\r\t") for l in text.splitlines()
  if l.strip()]\<close> and, when that list is empty, \<open>[s.strip() for s in
  re.split(r'[\\.!;\\n]', text) if s.strip()]\<close>. The raw pattern is the class of the
  backslash, the full stop, the exclamation mark, the semicolon and the letter n.
\<close>

definition bullet_chars :: pystr where
  "bullet_chars = [32, 45, 8226, 10, 13, 9]"

definition newline_lines :: "pystr \<Rightarrow> pystr list" where
  "newline_lines text = map (strip_chars bullet_chars) (filter (\<lambda>l. strip l \<noteq> []) (splitlines text))"

definition sentence_lines :: "pystr \<Rightarrow> pystr list" where
  "sentence_lines text =
     map strip (filter (\<lambda>s. strip s \<noteq> [])
       (split_where (\<lambda>c. c \<in> {92, 46, 33, 59, 110}) text))"

definition caption_lines :: "pystr \<Rightarrow> pystr list" where
  "caption_lines text =
     (let lines = newline_lines text in if lines = [] then sentence_lines text else lines)"

text \<open>
  The body of the \<open>try\<close> block of \<open>generate_captions\<close>; the only statement in it that
  raises is \<open>_call_rest\<close>.
\<close>

definition captions_try :: "world \<Rightarrow> adapter \<Rightarrow> pystr \<Rightarrow> pystr \<Rightarrow> int \<Rightarrow> error + pystr list" where
  "captions_try w self brand product n =
     (case call_rest w self (prompt_text brand product n) 200 of
        Inl e \<Rightarrow> Inl e
      | Inr data \<Rightarrow>
         (case extract_text_from_response w data of
            None \<Rightarrow> Inr (template_captions brand product n)
          | Some text \<Rightarrow>
             (if text = [] then Inr (template_captions brand product n)
              else
                let lines = caption_lines text;
                    out = slice_to lines n;
                    out = (if int (length out) < n
                           then out @ template_captions brand product (n - int (length out))
                           else out)
                in Inr (slice_to out n))))"

definition generate_captions :: "world \<Rightarrow> adapter \<Rightarrow> pystr \<Rightarrow> pystr \<Rightarrow> int \<Rightarrow> pystr list" where
  "generate_captions w self brand product n =
     (if \<not> str_truthy (api_key self) then template_captions brand product n
      else case captions_try w self brand product n of
             Inl e \<Rightarrow> template_captions brand product n
           | Inr out \<Rightarrow> out)"

section \<open>Images and the subject auto-crop (generate\_creatives.py)\<close>

text \<open>
  A Pillow image as the auto-crop reads it: its mode, its size, and the bands of the
  pixel in column x and row y (for mode RGBA: red, green, blue, alpha).
\<close>

record image =
  mode :: pystr
  width :: nat
  height :: nat
  pixel_at :: "nat \<Rightarrow> nat \<Rightarrow> nat list"

text \<open>A box is (left, upper, right, lower); right and lower are exclusive.\<close>

type_synonym box = "nat \<times> nat \<times> nat \<times> nat"

text \<open>
  \<open>Image.getbbox()\<close> on a single band: the smallest box that holds every non-zero pixel,
  or \<open>None\<close> when there is none. \<open>Image.crop(box)\<close> for a box inside the image.
\<close>

definition getbbox :: "nat \<Rightarrow> nat \<Rightarrow> (nat \<Rightarrow> nat \<Rightarrow> nat) \<Rightarrow> box option" where
  "getbbox w h band =
     (let xs = filter (\<lambda>x. list_ex (\<lambda>y. band x y \<noteq> 0) [0..<h]) [0..<w];
          ys = filter (\<lambda>y. list_ex (\<lambda>x. band x y \<noteq> 0) [0..<w]) [0..<h]
      in if xs = [] then None else Some (hd xs, hd ys, last xs + 1, last ys + 1))"

definition crop :: "image \<Rightarrow> box \<Rightarrow> image" where
  "crop img b =
     (case b of (left, upper, right, lower) \<Rightarrow>
        img\<lparr>width := right - left, height := lower - upper,
            pixel_at := (\<lambda>x y. pixel_at img (x + left) (y + upper))\<rparr>)"

text \<open>
  \<open>img.split()[-1]\<close> is the last band. \<open>img.convert("L")\<close> is Pillow's grey level of a
  pixel of the given mode, taken as the parameter \<open>convert_L\<close>;
  \<open>gray.point(lambda p: 255 if p < (255 - threshold) else 0)\<close> marks the pixels that are
  not near white.
\<close>

definition alpha_band :: "image \<Rightarrow> nat \<Rightarrow> nat \<Rightarrow> nat" where
  "alpha_band img x y = last (pixel_at img x y)"

definition near_white_mask :: "(pystr \<Rightarrow> nat list \<Rightarrow> nat) \<Rightarrow> image \<Rightarrow> int \<Rightarrow> nat \<Rightarrow> nat \<Rightarrow> nat" where
  "near_white_mask convert_L img threshold x y =
     (if int (convert_L (mode img) (pixel_at img x y)) < 255 - threshold then 255 else 0)"

text \<open>The last lines of \<open>_autocrop_to_subject\<close>: the centred square.\<close>

definition center_square_crop :: "image \<Rightarrow> image" where
  "center_square_crop img =
     (let w = width img; h = height img;
          min_side = min w h;
          left = (w - min_side) div 2;
          top = (h - min_side) div 2
      in crop img (left, top, left + min_side, top + min_side))"

text \<open>
  \<open>_autocrop_to_subject(img, threshold=10)\<close>: the alpha box for an RGBA image that has
  one, else the box of the mask, else the centred square.
\<close>

definition autocrop_to_subject :: "(pystr \<Rightarrow> nat list \<Rightarrow> nat) \<Rightarrow> image \<Rightarrow> int \<Rightarrow> image" where
  "autocrop_to_subject convert_L img threshold =
     (case (if mode img = asc ''RGBA''
            then getbbox (width img) (height img) (alpha_band img) else None) of
        Some bbox \<Rightarrow> crop img bbox
      | None \<Rightarrow>
         (case getbbox (width img) (height img) (near_white_mask convert_L img threshold) of
            Some bbox \<Rightarrow> crop img bbox
          | None \<Rightarrow> center_square_crop img))"

text \<open>
  Predicates for stating the crop: a pixel is opaque when its alpha is not zero, darker
  when its grey level is below 255 minus the threshold; \<open>is_bbox\<close> says that a box
  encloses every pixel of a kind and that each of its four edges holds one;
  \<open>edges_touch\<close> says that the first and last column and row of an image hold one.
\<close>

definition is_bbox :: "nat \<Rightarrow> nat \<Rightarrow> (nat \<Rightarrow> nat \<Rightarrow> bool) \<Rightarrow> box \<Rightarrow> bool" where
  "is_bbox w h S b =
     (case b of (l, u, r, d) \<Rightarrow>
        l < r \<and> r \<le> w \<and> u < d \<and> d \<le> h \<and>
        (\<forall>x<w. \<forall>y<h. S x y \<longrightarrow> l \<le> x \<and> x < r \<and> u \<le> y \<and> y < d) \<and>
        (\<exists>y<h. S l y) \<and> (\<exists>y<h. S (r - 1) y) \<and> (\<exists>x<w. S x u) \<and> (\<exists>x<w. S x (d - 1)))"

definition edges_touch :: "image \<Rightarrow> (nat list \<Rightarrow> bool) \<Rightarrow> bool" where
  "edges_touch R S \<longleftrightarrow>
     (\<exists>y<height R. S (pixel_at R 0 y)) \<and> (\<exists>y<height R. S (pixel_at R (width R - 1) y)) \<and>
     (\<exists>x<width R. S (pixel_at R x 0)) \<and> (\<exists>x<width R. S (pixel_at R x (height R - 1)))"

definition opaque :: "nat list \<Rightarrow> bool" where
  "opaque p \<longleftrightarrow> last p \<noteq> 0"

definition darker :: "(pystr \<Rightarrow> nat list \<Rightarrow> nat) \<Rightarrow> pystr \<Rightarrow> int \<Rightarrow> nat list \<Rightarrow> bool" where
  "darker convert_L m threshold p \<longleftrightarrow> int (convert_L m p) < 255 - threshold"

definition some_pixel :: "image \<Rightarrow> (nat list \<Rightarrow> bool) \<Rightarrow> bool" where
  "some_pixel img S \<longleftrightarrow> (\<exists>x<width img. \<exists>y<height img. S (pixel_at img x y))"

section \<open>Files\<close>

text \<open>
  A path is the list of its components, a file holds bytes or text (written with an
  encoding; its lines are those of the text), or is a zip archive: the list of its
  members, each a name and the data stored under it. The file system lists its nodes in
  directory order. The operating system is taken to carry out every directory creation
  and every write: a refused permission, a full disk or a directory standing where a
  file is to be written are outside the model.
\<close>

type_synonym path = "pystr list"

datatype content =
    Bytes "nat list"
  | Text pystr
  | Archive "(pystr \<times> content) list"

datatype node = File content | Dir

type_synonym fs = "(path \<times> node) list"

fun fs_put :: "path \<Rightarrow> node \<Rightarrow> fs \<Rightarrow> fs" where
  "fs_put p v [] = [(p, v)]"
| "fs_put p v ((q, w) # rest) = (if q = p then (p, v) # rest else (q, w) # fs_put p v rest)"

definition path_exists :: "fs \<Rightarrow> path \<Rightarrow> bool" where
  "path_exists f p \<longleftrightarrow> map_of f p \<noteq> None"

text \<open>\<open>Path(p).mkdir(parents=True, exist_ok=True)\<close>: every missing ancestor and \<open>p\<close> itself.\<close>

definition ensure_dir :: "fs \<Rightarrow> path \<Rightarrow> fs" where
  "ensure_dir f p =
     fold (\<lambda>k g. if map_of g (take k p) = None then fs_put (take k p) Dir g else g)
       [1..<Suc (length p)] f"



section \<open>Creative Compositor (generate\_creatives.py)\<close>

text \<open>
  The state of Python's \<open>random\<close> module: the numbers it will give and how many were
  taken. \<open>random.choice(seq)\<close> picks an index below \<open>len(seq)\<close>.
\<close>

type_synonym rng = "(nat \<Rightarrow> nat) \<times> nat"

definition choice :: "nat \<Rightarrow> rng \<Rightarrow> nat \<times> rng" where
  "choice k g = (fst g (snd g) mod k, (fst g, Suc (snd g)))"

definition templates :: "pystr \<Rightarrow> pystr \<Rightarrow> pystr list" where
  "templates brand product =
     [brand @ asc '' '' @ product @ [32, 8212, 32] @ asc ''style meets performance.'',
      asc ''Upgrade your day with the '' @ product @ asc '' from '' @ brand @ asc ''.'',
      asc ''Feel the difference with '' @ brand @ [39] @ asc ''s '' @ product
        @ asc ''. Shop now!'',
      asc ''The '' @ product @ asc '' by '' @ brand @ [32, 8212, 32]
        @ asc ''crafted for comfort and quality.'',
      asc ''Special offer: grab the '' @ product @ asc '' by '' @ brand @ asc '' today.'']"

definition generate_caption :: "pystr \<Rightarrow> pystr \<Rightarrow> rng \<Rightarrow> pystr \<times> rng" where
  "generate_caption brand product g =
     (let (i, g') = choice (length (templates brand product)) g
      in (templates brand product ! i, g'))"

text \<open>
  What the compositor takes from Pillow and the operating system. \<open>image_open\<close> decodes
  the content of a file (\<open>None\<close>: \<open>Image.open\<close> raises); \<open>paint\<close> is the drawing of one
  creative from the logo, the cropped product, the canvas size and the two names
  (gradient, bloom, enhancement, shadow, logo pill, headline, badge, vignette and the
  conversion to RGB), with the random numbers it takes: the picture, or the exception of
  a Pillow call; \<open>save_png\<close> and \<open>save_jpg\<close> are the two encodings of \<open>final.save\<close>;
  \<open>resolve\<close> is \<open>Path.resolve()\<close>.
\<close>

record pillow =
  image_open :: "content \<Rightarrow> image option"
  convert_RGBA :: "image \<Rightarrow> image"
  convert_L :: "pystr \<Rightarrow> nat list \<Rightarrow> nat"
  paint :: "image \<Rightarrow> image \<Rightarrow> int \<Rightarrow> pystr \<Rightarrow> pystr \<Rightarrow> rng \<Rightarrow> error + image \<times> rng"
  save_png :: "image \<Rightarrow> content"
  save_jpg :: "image \<Rightarrow> content"
  resolve :: "path \<Rightarrow> path"

text \<open>
  \<open>Image.open(path)\<close> on the file system (the caller has checked that the path exists).
\<close>

definition open_image :: "pillow \<Rightarrow> fs \<Rightarrow> path \<Rightarrow> error + image" where
  "open_image pil f p =
     (case map_of f p of
        Some (File c) \<Rightarrow>
          (case image_open pil c of Some img \<Rightarrow> Inr img | None \<Rightarrow> Inl UnidentifiedImageError)
      | Some Dir \<Rightarrow> Inl (LibraryError (asc ''IsADirectoryError''))
      | None \<Rightarrow> Inl (FileNotFoundError (asc ''No such file or directory'')))"

text \<open>
  One round of the loop up to \<open>final = canvas.convert("RGB")\<close>. With a canvas of size 1
  the gradient loop divides by \<open>size - 1\<close> in \<open>ratio = y / (size - 1)\<close>, after
  \<open>Image.new\<close> has made the one-pixel canvas.
\<close>

definition render_creative ::
  "pillow \<Rightarrow> image \<Rightarrow> image \<Rightarrow> int \<Rightarrow> pystr \<Rightarrow> pystr \<Rightarrow> rng \<Rightarrow> error + image \<times> rng" where
  "render_creative pil logo product csize brand_name product_name g =
     (if csize = 1 then Inl ZeroDivisionError
      else paint pil logo (autocrop_to_subject (convert_L pil) product 10) csize
             brand_name product_name g)"

text \<open>The values a call can return.\<close>

datatype pyvalue = PyPath path | PyList "pystr list"

text \<open>
  The loop \<open>for i in range(n)\<close> over the indices still to run, on the file system, the
  list \<open>captions\<close> and the random state. An exception leaves the files written so far.
\<close>

fun creative_loop ::
  "pillow \<Rightarrow> image \<Rightarrow> image \<Rightarrow> path \<Rightarrow> int \<Rightarrow> pystr \<Rightarrow> pystr \<Rightarrow> nat list \<Rightarrow>
   fs \<times> pystr list \<times> rng \<Rightarrow> error \<times> fs + fs \<times> pystr list \<times> rng" where
  "creative_loop pil logo product out_dir csize brand_name product_name [] st = Inr st"
| "creative_loop pil logo product out_dir csize brand_name product_name (i # rest) (f, captions, g) =
     (case render_creative pil logo product csize brand_name product_name g of
        Inl e \<Rightarrow> Inl (e, f)
      | Inr (final, g1) \<Rightarrow>
          let filename_base = asc ''creative_'' @ fmt_02d (i + 1);
              out_path_png = out_dir @ [filename_base @ asc ''.png''];
              out_path_jpg = out_dir @ [filename_base @ asc ''.jpg''];
              f1 = fs_put out_path_png (File (save_png pil final)) f;
              f2 = fs_put out_path_jpg (File (save_jpg pil final)) f1;
              (caption, g2) = generate_caption brand_name product_name g1
          in creative_loop pil logo product out_dir csize brand_name product_name rest
               (f2, captions @ [filename_base @ asc ''.jpg'' @ [9] @ caption], g2))"

definition generate_variations_improved ::
  "pillow \<Rightarrow> fs \<Rightarrow> rng \<Rightarrow> path \<Rightarrow> path \<Rightarrow> path \<Rightarrow> int \<Rightarrow> int \<Rightarrow> pystr \<Rightarrow> pystr \<Rightarrow>
   fs \<times> (error + pyvalue)" where
  "generate_variations_improved pil f g logo_path product_path out_dir n csize brand_name product_name =
     (let f0 = ensure_dir f out_dir in
      if \<not> path_exists f0 logo_path
      then (f0, Inl (FileNotFoundError (asc ''Logo not found'')))
      else if \<not> path_exists f0 product_path
      then (f0, Inl (FileNotFoundError (asc ''Product image not found'')))
      else
        case open_image pil f0 logo_path of
          Inl e \<Rightarrow> (f0, Inl e)
        | Inr logo_raw \<Rightarrow>
           (case open_image pil f0 product_path of
              Inl e \<Rightarrow> (f0, Inl e)
            | Inr product_raw \<Rightarrow>
               (case creative_loop pil (convert_RGBA pil logo_raw) (convert_RGBA pil product_raw)
                       out_dir csize brand_name product_name [0..<nat n] (f0, [], g) of
                  Inl (e, f1) \<Rightarrow> (f1, Inl e)
                | Inr (f1, captions, g1) \<Rightarrow>
                    (fs_put (out_dir @ [asc ''captions.txt'']) (File (Text (join_lf captions))) f1,
                     Inr (PyPath (resolve pil out_dir))))))"

text \<open>The alias, and the default values of the keyword arguments of the two functions.\<close>

definition generate_variations ::
  "pillow \<Rightarrow> fs \<Rightarrow> rng \<Rightarrow> path \<Rightarrow> path \<Rightarrow> path \<Rightarrow> int \<Rightarrow> int \<Rightarrow> pystr \<Rightarrow> pystr \<Rightarrow>
   fs \<times> (error + pyvalue)" where
  "generate_variations pil f g logo_path product_path out_dir n csize brand_name product_name =
     generate_variations_improved pil f g logo_path product_path out_dir n csize brand_name product_name"

definition generate_variations_improved_defaults :: "path \<times> int \<times> int \<times> pystr \<times> pystr" where
  "generate_variations_improved_defaults = ([asc ''output''], 12, 1200, asc ''Brand'', asc ''Product'')"

definition generate_variations_defaults :: "path \<times> int \<times> int \<times> pystr \<times> pystr" where
  "generate_variations_defaults = ([asc ''output''], 12, 1200, asc ''Brand'', asc ''Product'')"




section \<open>Packaging Layer (utils.py)\<close>




section \<open>Web Entrypoint (app.py)\<close>

text \<open>
  \<open>str.lower()\<close> on the letters that matter for the extensions (no other code point
  becomes one of the letters of png, jpg or jpeg), \<open>name.rsplit(".", 1)[1]\<close>,
  \<open>Path.suffix\<close> and \<open>str.replace(" ", "_")\<close>.
\<close>

definition lower :: "pystr \<Rightarrow> pystr" where
  "lower s = map (\<lambda>c. if 65 \<le> c \<and> c \<le> 90 then c + 32 else c) s"


















section \<open>Example inputs and the specification's reading of the padding\<close>

text \<open>
  A world with a credential in the environment whose remote end gives one fixed answer.
\<close>

definition ex_world :: "(pystr + json) \<Rightarrow> world" where
  "ex_world answer =
     \<lparr>env_GEMINI_API_KEY = Some (asc ''key''), env_GOOGLE_API_KEY = None,
      py_str = (\<lambda>d. asc ''payload''), requests_post = (\<lambda>u k p. answer)\<rparr>"

text \<open>
  The padding as the specification words it: after k lines, the template cycle goes on
  at index k, so that the entries k, ..., n - 1 of the cycle fill the list.
\<close>

definition spec_continued_cycle :: "pystr \<Rightarrow> pystr \<Rightarrow> nat \<Rightarrow> nat \<Rightarrow> pystr list" where
  "spec_continued_cycle brand product k n = map (\<lambda>i. samples brand product ! (i mod 5)) [k..<n]"

text \<open>
  A grey level for the examples (ITU-R 601-2 weights), a logo with one opaque pixel, a
  fully transparent image whose pixels are transparent black, and a white RGB image.
\<close>

definition ex_L :: "pystr \<Rightarrow> nat list \<Rightarrow> nat" where
  "ex_L m p = (299 * p ! 0 + 587 * p ! 1 + 114 * p ! 2) div 1000"

definition ex_logo :: image where
  "ex_logo = \<lparr>mode = asc ''RGBA'', width = 3, height = 3,
     pixel_at = (\<lambda>x y. if x = 1 \<and> y = 1 then [200, 30, 30, 255] else [0, 0, 0, 0])\<rparr>"

definition ex_clear :: image where
  "ex_clear = \<lparr>mode = asc ''RGBA'', width = 2, height = 1, pixel_at = (\<lambda>x y. [0, 0, 0, 0])\<rparr>"

definition ex_white :: image where
  "ex_white = \<lparr>mode = asc ''RGB'', width = 4, height = 2, pixel_at = (\<lambda>x y. [255, 255, 255])\<rparr>"










text \<open>The file name in front of the TAB of a caption line.\<close>

definition line_file :: "pystr \<Rightarrow> pystr" where
  "line_file l = takeWhile (\<lambda>c. c \<noteq> 9) l"






section \<open>Properties of the caption adapter\<close>

lemma template_loop_eq:
  "smp \<noteq> [] \<Longrightarrow>
   template_loop k smp out idx = out @ map (\<lambda>i. smp ! ((idx + i) mod length smp)) [0..<k]"
proof (induction k arbitrary: out idx)
  case 0
  then show ?case by simp
next
  case (Suc k)
  have "map (\<lambda>i. smp ! ((idx + i) mod length smp)) [0..<Suc k] =
        smp ! (idx mod length smp) # map (\<lambda>i. smp ! ((Suc idx + i) mod length smp)) [0..<k]"
    by (simp add: upt_conv_Cons map_Suc_upt [symmetric] del: upt_Suc)
  with Suc show ?case by simp
qed

lemma length_samples [simp]: "length (samples brand product) = 5"
  by (simp add: samples_def)

lemma template_captions_eq:
  "template_captions brand product n = map (\<lambda>i. samples brand product ! (i mod 5)) [0..<nat n]"
proof -
  have "samples brand product \<noteq> []" by (simp add: samples_def)
  then show ?thesis
    by (simp add: template_captions_def template_loop_eq)
qed

lemma length_template_captions [simp]: "length (template_captions brand product n) = nat n"
  by (simp add: template_captions_eq)

text \<open>
  C5. An adapter built with no credential (no constructor argument, neither environment
  variable set to a non-empty string) returns, for every brand, product and n and
  whatever the remote end would answer, exactly the list of the Caption Fallback
  Generator.
\<close>

theorem generate_captions_no_credential:
  assumes "\<not> str_truthy key"
    and "\<not> str_truthy (env_GEMINI_API_KEY w)"
    and "\<not> str_truthy (env_GOOGLE_API_KEY w)"
  shows "generate_captions w (GeminiCaptionAdapter w key) brand product n =
         template_captions brand product n"
  using assms
  by (simp add: generate_captions_def GeminiCaptionAdapter_def GEMINI_API_KEY_def py_or_def)

theorem generate_captions_no_credential_witness:
  "generate_captions
     \<lparr>env_GEMINI_API_KEY = None, env_GOOGLE_API_KEY = Some [],
      py_str = (\<lambda>d. asc ''{}''), requests_post = (\<lambda>u k p. Inr (JStr (asc ''One\<newline>Two'')))\<rparr>
     (GeminiCaptionAdapter
        \<lparr>env_GEMINI_API_KEY = None, env_GOOGLE_API_KEY = Some [],
         py_str = (\<lambda>d. asc ''{}''), requests_post = (\<lambda>u k p. Inr (JStr (asc ''One\<newline>Two'')))\<rparr>
        None)
     (asc ''Acme'') (asc ''Boots'') 2 =
   template_captions (asc ''Acme'') (asc ''Boots'') 2"
  by (rule generate_captions_no_credential) simp_all


lemma slice_to_short: "int (length xs) \<le> n \<Longrightarrow> slice_to xs n = xs"
  by (simp add: slice_to_def)




lemma splitlines_Nil [simp]: "splitlines [] = []"
  by (simp add: splitlines_def)

text \<open>Unfolding the adapter on the example world.\<close>

lemmas ex_eval =
  ex_world_def GeminiCaptionAdapter_def GEMINI_API_KEY_def py_or_def generate_captions_def
  captions_try_def call_rest_def extract_text_from_response_def candidates_text_def
  caption_lines_def newline_lines_def sentence_lines_def splitlines_def split_where_def
  is_linebreak_def strip_def strip_where_def strip_chars_def bullet_chars_def is_space_def
  slice_to_def Let_def





text \<open>
  C3, as the code has it. When a successful response gives only k < n lines, the list
  returned is those k lines followed by the first n - k entries of the template cycle:
  \<open>_template_captions\<close> starts every call at index 0, so the padding begins with the
  first template again.
\<close>

theorem generate_captions_pads_from_first_template:
  assumes "str_truthy (api_key self)"
    and "call_rest w self (prompt_text brand product n) 200 = Inr data"
    and "extract_text_from_response w data = Some text"
    and "text \<noteq> []"
    and "int (length (caption_lines text)) < n"
  shows "generate_captions w self brand product n =
           caption_lines text @
           map (\<lambda>i. samples brand product ! (i mod 5)) [0..<nat n - length (caption_lines text)]"
proof -
  have n: "0 \<le> n" using assms(5) by simp
  have "nat (n - int (length (caption_lines text))) = nat n - length (caption_lines text)"
    by simp
  then show ?thesis
    using assms n
    by (simp add: generate_captions_def captions_try_def Let_def slice_to_short
        template_captions_eq slice_to_def)
qed

theorem generate_captions_pads_from_first_template_witness:
  "generate_captions (ex_world (Inr (JDict [(asc ''output'', JStr (asc ''Only one''))])))
     (GeminiCaptionAdapter (ex_world (Inr (JDict [(asc ''output'', JStr (asc ''Only one''))]))) None)
     (asc ''Acme'') (asc ''Boots'') 3 =
   [asc ''Only one'', samples (asc ''Acme'') (asc ''Boots'') ! 0,
    samples (asc ''Acme'') (asc ''Boots'') ! 1]"
  using generate_captions_pads_from_first_template [of
      "GeminiCaptionAdapter (ex_world (Inr (JDict [(asc ''output'', JStr (asc ''Only one''))]))) None"
      "ex_world (Inr (JDict [(asc ''output'', JStr (asc ''Only one''))]))"
      "asc ''Acme''" "asc ''Boots''" 3
      "JDict [(asc ''output'', JStr (asc ''Only one''))]"
      "asc ''Only one''"]
  by (simp add: ex_eval asc_def upt_conv_Cons)

text \<open>
  C3, as stated, fails: with one line extracted and n = 2 the second entry is the first
  template (index 0), not the second (index 1) that a continued cycle would give.
\<close>

theorem generate_captions_continued_cycle_counterexample:
  "generate_captions (ex_world (Inr (JDict [(asc ''output'', JStr (asc ''Only one''))])))
     (GeminiCaptionAdapter (ex_world (Inr (JDict [(asc ''output'', JStr (asc ''Only one''))]))) None)
     (asc ''Acme'') (asc ''Boots'') 2
   \<noteq> [asc ''Only one''] @ spec_continued_cycle (asc ''Acme'') (asc ''Boots'') 1 2 \<and>
   generate_captions (ex_world (Inr (JDict [(asc ''output'', JStr (asc ''Only one''))])))
     (GeminiCaptionAdapter (ex_world (Inr (JDict [(asc ''output'', JStr (asc ''Only one''))]))) None)
     (asc ''Acme'') (asc ''Boots'') 2
   = [asc ''Only one''] @ spec_continued_cycle (asc ''Acme'') (asc ''Boots'') 0 1"
  by (simp add: ex_eval spec_continued_cycle_def template_captions_eq upt_conv_Cons samples_def asc_def)

subsection \<open>The second way of splitting never gives a line\<close>

text \<open>
  When no line of the text is left after the blank ones are dropped, the text is white
  space only, and so is every piece that \<open>re.split\<close> cuts from it: the list stays empty.
  The usable lines of a response are therefore always those of the first splitting.
\<close>

lemma strip_where_empty: "strip_where P s = [] \<longleftrightarrow> (\<forall>c \<in> set s. P c)"
proof -
  have "dropWhile P (rev (dropWhile P s)) = [] \<longleftrightarrow> dropWhile P s = []"
  proof
    assume a: "dropWhile P (rev (dropWhile P s)) = []"
    show "dropWhile P s = []"
    proof (rule ccontr)
      assume n: "dropWhile P s \<noteq> []"
      then have "\<not> P (hd (dropWhile P s))" by (rule hd_dropWhile)
      moreover have "hd (dropWhile P s) \<in> set (rev (dropWhile P s))" using n by simp
      ultimately show False using a by (auto simp: dropWhile_eq_Nil_conv)
    qed
  next
    assume "dropWhile P s = []"
    then show "dropWhile P (rev (dropWhile P s)) = []" by (simp only: rev.simps dropWhile.simps)
  qed
  then show ?thesis by (simp add: strip_where_def dropWhile_eq_Nil_conv)
qed

lemma splitlines_from_covers:
  "set cur \<union> set s \<subseteq> \<Union> (set ` set (splitlines_from cur s)) \<union> {c. is_linebreak c}"
proof (induction cur s rule: splitlines_from.induct)
  case (1 cur)
  show ?case by simp
next
  case (2 cur c cs)
  show ?case
  proof (cases "c = 13 \<and> cs \<noteq> [] \<and> hd cs = 10")
    case True
    then obtain cs' where cs: "cs = 10 # cs'" by (cases cs) auto
    have "is_linebreak 13" "is_linebreak 10" by (simp_all add: is_linebreak_def)
    with "2.IH"(1) [OF True] True cs show ?thesis by auto
  next
    case False
    show ?thesis
    proof (cases "is_linebreak c")
      case True
      with "2.IH"(2) [OF False True] False show ?thesis by auto
    next
      case nl: False
      with "2.IH"(3) [OF False nl] False show ?thesis by auto
    qed
  qed
qed

lemma split_from_pieces:
  "x \<in> set (split_from P cur s) \<Longrightarrow> set x \<subseteq> set cur \<union> set s"
  by (induction P cur s arbitrary: x rule: split_from.induct) (auto split: if_splits)

lemma is_linebreak_space: "is_linebreak c \<Longrightarrow> is_space c"
  by (auto simp: is_linebreak_def is_space_def)

lemma sentence_lines_dead:
  assumes "newline_lines t = []"
  shows "sentence_lines t = []"
proof -
  from assms have blank: "\<forall>l \<in> set (splitlines t). \<forall>c \<in> set l. is_space c"
    by (auto simp: newline_lines_def filter_empty_conv strip_def strip_where_empty)
  have sp: "is_space c" if "c \<in> set t" for c
  proof -
    from that splitlines_from_covers [of "[]" t]
    have "c \<in> \<Union> (set ` set (splitlines t)) \<or> is_linebreak c"
      by (auto simp: splitlines_def)
    with blank is_linebreak_space show ?thesis by auto
  qed
  have "strip x = []" if "x \<in> set (split_where (\<lambda>c. c \<in> {92, 46, 33, 59, 110}) t)" for x
  proof -
    from that have "set x \<subseteq> set t"
      using split_from_pieces [of x _ "[]" t] by (simp add: split_where_def)
    with sp show ?thesis by (auto simp: strip_def strip_where_empty)
  qed
  then show ?thesis by (simp add: sentence_lines_def filter_empty_conv)
qed

lemma caption_lines_eq: "caption_lines t = newline_lines t"
  by (simp add: caption_lines_def Let_def sentence_lines_dead)

section \<open>Properties of the subject auto-crop\<close>

lemma sorted_le_last: "sorted (xs :: nat list) \<Longrightarrow> x \<in> set xs \<Longrightarrow> x \<le> last xs"
  by (induction xs) auto

lemma filter_upt_hd:
  assumes "filter P [0..<n] \<noteq> []"
  shows "P (hd (filter P [0..<n]))" "hd (filter P [0..<n]) < n"
    "\<And>x. x < n \<Longrightarrow> P x \<Longrightarrow> hd (filter P [0..<n]) \<le> x"
proof -
  let ?xs = "filter P [0..<n]"
  have m: "hd ?xs \<in> set ?xs" using assms by (rule hd_in_set)
  from m show "P (hd ?xs)" by (simp only: set_filter mem_Collect_eq)
  from m have "hd ?xs \<in> set [0..<n]" by (simp only: set_filter mem_Collect_eq)
  then show "hd ?xs < n" by simp
  fix x assume "x < n" "P x"
  then have "x \<in> set ?xs" by simp
  moreover have "sorted ?xs" by (simp add: sorted_wrt_filter)
  ultimately show "hd ?xs \<le> x" by (cases ?xs) auto
qed

lemma filter_upt_last:
  assumes "filter P [0..<n] \<noteq> []"
  shows "P (last (filter P [0..<n]))" "last (filter P [0..<n]) < n"
    "\<And>x. x < n \<Longrightarrow> P x \<Longrightarrow> x \<le> last (filter P [0..<n])"
proof -
  let ?xs = "filter P [0..<n]"
  have m: "last ?xs \<in> set ?xs" using assms by (rule last_in_set)
  from m show "P (last ?xs)" by (simp only: set_filter mem_Collect_eq)
  from m have "last ?xs \<in> set [0..<n]" by (simp only: set_filter mem_Collect_eq)
  then show "last ?xs < n" by simp
  fix x assume "x < n" "P x"
  then have "x \<in> set ?xs" by simp
  moreover have "sorted ?xs" by (simp add: sorted_wrt_filter)
  ultimately show "x \<le> last ?xs" by (auto intro: sorted_le_last)
qed

lemma list_ex_upt: "list_ex Q [0..<n] \<longleftrightarrow> (\<exists>i<n. Q i)"
  by (auto simp: list_ex_iff)

lemma getbbox_None:
  "getbbox w h band = None \<longleftrightarrow> \<not> (\<exists>x<w. \<exists>y<h. band x y \<noteq> 0)"
proof -
  have "filter (\<lambda>x. \<exists>y<h. band x y \<noteq> 0) [0..<w] = [] \<longleftrightarrow> \<not> (\<exists>x<w. \<exists>y<h. band x y \<noteq> 0)"
    unfolding filter_empty_conv by auto
  then show ?thesis
    by (simp add: getbbox_def Let_def list_ex_upt del: neq0_conv)
qed

lemma getbbox_Some:
  assumes "getbbox w h band = Some b"
  shows "is_bbox w h (\<lambda>x y. band x y \<noteq> 0) b"
proof -
  let ?C = "\<lambda>x. \<exists>y<h. band x y \<noteq> 0"
  let ?R = "\<lambda>y. \<exists>x<w. band x y \<noteq> 0"
  let ?xs = "filter ?C [0..<w]" and ?ys = "filter ?R [0..<h]"
  from assms have xs: "?xs \<noteq> []" and b: "b = (hd ?xs, hd ?ys, last ?xs + 1, last ?ys + 1)"
    by (auto simp: getbbox_def Let_def list_ex_upt simp del: neq0_conv split: if_splits)
  from xs have "\<exists>x0 \<in> set [0..<w]. ?C x0"
    unfolding filter_empty_conv by blast
  then obtain x0 where x0: "x0 \<in> set [0..<w]" "?C x0"
    by blast
  from x0(1) have "x0 < w" by simp
  note \<open>x0 < w\<close> \<open>?C x0\<close>
  then obtain y0 where "y0 < h" "band x0 y0 \<noteq> 0" by blast
  with \<open>x0 < w\<close> have "y0 \<in> set [0..<h]" "?R y0" by (simp, blast)
  then have "\<exists>y \<in> set [0..<h]. ?R y"
    by blast
  then have ys: "?ys \<noteq> []"
    unfolding filter_empty_conv by blast
  note hx = filter_upt_hd [OF xs] and lx = filter_upt_last [OF xs]
    and hy = filter_upt_hd [OF ys] and ly = filter_upt_last [OF ys]
  have enc: "hd ?xs \<le> x \<and> x < last ?xs + 1 \<and> hd ?ys \<le> y \<and> y < last ?ys + 1"
    if "x < w" "y < h" "band x y \<noteq> 0" for x y
  proof -
    from that have "?C x" "?R y" by blast+
    with that hx(3) [of x] lx(3) [of x] hy(3) [of y] ly(3) [of y] show ?thesis
      by (simp add: less_Suc_eq_le)
  qed
  have le1: "hd ?xs \<le> last ?xs" using hx(1,2) lx(3) by blast
  have le2: "hd ?ys \<le> last ?ys" using hy(1,2) ly(3) by blast
  show ?thesis
    unfolding is_bbox_def b prod.case
  proof (intro conjI allI impI)
    show "hd ?xs < last ?xs + 1" using le1 by simp
    show "last ?xs + 1 \<le> w" using lx(2) by simp
    show "hd ?ys < last ?ys + 1" using le2 by simp
    show "last ?ys + 1 \<le> h" using ly(2) by simp
    show "\<exists>y<h. band (hd ?xs) y \<noteq> 0" using hx(1) .
    show "\<exists>y<h. band (last ?xs + 1 - 1) y \<noteq> 0" using lx(1) by simp
    show "\<exists>x<w. band x (hd ?ys) \<noteq> 0" using hy(1) .
    show "\<exists>x<w. band x (last ?ys + 1 - 1) \<noteq> 0" using ly(1) by simp
  qed (use enc in blast)+
qed

lemma is_bbox_unique:
  assumes "is_bbox w h S b" "is_bbox w h S b'"
  shows "b = b'"
proof -
  obtain l u r d where b: "b = (l, u, r, d)" by (cases b) auto
  obtain l' u' r' d' where b': "b' = (l', u', r', d')" by (cases b') auto
  from assms have A: "l < r" "r \<le> w" "u < d" "d \<le> h"
      "\<And>x y. x < w \<Longrightarrow> y < h \<Longrightarrow> S x y \<Longrightarrow> l \<le> x \<and> x < r \<and> u \<le> y \<and> y < d"
      "\<exists>y<h. S l y" "\<exists>y<h. S (r - 1) y" "\<exists>x<w. S x u" "\<exists>x<w. S x (d - 1)"
    and B: "l' < r'" "r' \<le> w" "u' < d'" "d' \<le> h"
      "\<And>x y. x < w \<Longrightarrow> y < h \<Longrightarrow> S x y \<Longrightarrow> l' \<le> x \<and> x < r' \<and> u' \<le> y \<and> y < d'"
      "\<exists>y<h. S l' y" "\<exists>y<h. S (r' - 1) y" "\<exists>x<w. S x u'" "\<exists>x<w. S x (d' - 1)"
    unfolding b b' is_bbox_def by auto
  have "l' \<le> l" using A(1,2,6) B(5) [of l] by auto
  moreover have "l \<le> l'" using B(1,2,6) A(5) [of l'] by auto
  moreover have "r - 1 < r'" using A(1,2,7) B(5) [of "r - 1"] by auto
  moreover have "r' - 1 < r" using B(1,2,7) A(5) [of "r' - 1"] by auto
  moreover have "u' \<le> u" using A(3,4,8) B(5) [of _ u] by auto
  moreover have "u \<le> u'" using B(3,4,8) A(5) [of _ u'] by auto
  moreover have "d - 1 < d'" using A(3,4,9) B(5) [of _ "d - 1"] by auto
  moreover have "d' - 1 < d" using B(3,4,9) A(5) [of _ "d' - 1"] by auto
  ultimately show ?thesis using A(1,3) B(1,3) unfolding b b' by auto
qed


lemma is_bbox_edges_touch:
  assumes "is_bbox (width img) (height img) (\<lambda>x y. S (pixel_at img x y)) b"
  shows "edges_touch (crop img b) S"
proof -
  obtain l u r d where b: "b = (l, u, r, d)" by (cases b) auto
  let ?w = "width img" and ?h = "height img"
  from assms have A: "l < r" "r \<le> ?w" "u < d" "d \<le> ?h"
      "\<And>x y. x < ?w \<Longrightarrow> y < ?h \<Longrightarrow> S (pixel_at img x y) \<Longrightarrow> l \<le> x \<and> x < r \<and> u \<le> y \<and> y < d"
    and E: "\<exists>y<?h. S (pixel_at img l y)" "\<exists>y<?h. S (pixel_at img (r - 1) y)"
      "\<exists>x<?w. S (pixel_at img x u)" "\<exists>x<?w. S (pixel_at img x (d - 1))"
    unfolding b is_bbox_def by auto
  have 1: "\<exists>y<d - u. S (pixel_at img (0 + l) (y + u))"
  proof -
    from E(1) obtain y where y: "y < ?h" "S (pixel_at img l y)" by blast
    with A(5) [of l y] A(1,2) have "u \<le> y" "y < d" by auto
    with y show ?thesis by (intro exI [of _ "y - u"]) auto
  qed
  have 2: "\<exists>y<d - u. S (pixel_at img (r - l - 1 + l) (y + u))"
  proof -
    from E(2) obtain y where y: "y < ?h" "S (pixel_at img (r - 1) y)" by blast
    with A(5) [of "r - 1" y] A(1,2) have "u \<le> y" "y < d" by auto
    moreover have "r - l - 1 + l = r - 1" using A(1) by simp
    ultimately show ?thesis using y by (intro exI [of _ "y - u"]) auto
  qed
  have 3: "\<exists>x<r - l. S (pixel_at img (x + l) (0 + u))"
  proof -
    from E(3) obtain x where x: "x < ?w" "S (pixel_at img x u)" by blast
    with A(5) [of x u] A(3,4) have "l \<le> x" "x < r" by auto
    with x show ?thesis by (intro exI [of _ "x - l"]) auto
  qed
  have 4: "\<exists>x<r - l. S (pixel_at img (x + l) (d - u - 1 + u))"
  proof -
    from E(4) obtain x where x: "x < ?w" "S (pixel_at img x (d - 1))" by blast
    with A(5) [of x "d - 1"] A(3,4) have "l \<le> x" "x < r" by auto
    moreover have "d - u - 1 + u = d - 1" using A(3) by simp
    ultimately show ?thesis using x by (intro exI [of _ "x - l"]) auto
  qed
  from 1 2 3 4 show ?thesis
    by (simp add: edges_touch_def crop_def b)
qed

lemma center_square_crop_size:
  "width (center_square_crop img) = min (width img) (height img)"
  "height (center_square_crop img) = min (width img) (height img)"
  "pixel_at (center_square_crop img) x y =
     pixel_at img (x + (width img - min (width img) (height img)) div 2)
                  (y + (height img - min (width img) (height img)) div 2)"
  by (simp_all add: center_square_crop_def crop_def Let_def)

lemma getbbox_alpha_None:
  "getbbox (width img) (height img) (alpha_band img) = None \<longleftrightarrow> \<not> some_pixel img opaque"
  by (simp add: getbbox_None some_pixel_def opaque_def alpha_band_def del: neq0_conv)

lemma getbbox_mask_None:
  "getbbox (width img) (height img) (near_white_mask cl img t) = None \<longleftrightarrow>
     \<not> some_pixel img (darker cl (mode img) t)"
  unfolding getbbox_None some_pixel_def darker_def near_white_mask_def by auto

lemma getbbox_alpha_Some:
  assumes "getbbox (width img) (height img) (alpha_band img) = Some b"
  shows "is_bbox (width img) (height img) (\<lambda>x y. opaque (pixel_at img x y)) b"
  using getbbox_Some [OF assms] by (simp add: opaque_def alpha_band_def del: neq0_conv)

lemma getbbox_mask_Some:
  assumes "getbbox (width img) (height img) (near_white_mask cl img t) = Some b"
  shows "is_bbox (width img) (height img) (\<lambda>x y. darker cl (mode img) t (pixel_at img x y)) b"
proof -
  have "(\<lambda>x y. near_white_mask cl img t x y \<noteq> 0) = (\<lambda>x y. darker cl (mode img) t (pixel_at img x y))"
    by (intro ext) (simp add: near_white_mask_def darker_def)
  with getbbox_Some [OF assms] show ?thesis by simp
qed

text \<open>
  C7, as the code has it. For every image, grey-level function and threshold:
  an RGBA image with at least one pixel that is not fully transparent is cropped to the
  bounding box of those pixels, and then the first and last column and row of the result
  each hold such a pixel; every other image (another mode, or RGBA with every pixel fully
  transparent) is cropped to the bounding box of the pixels whose grey level is below 255
  minus the threshold, when there is one; and when there is none either, the result is
  the centred square of side min(width, height).
\<close>

theorem autocrop_to_subject_cases:
  "(mode img = asc ''RGBA'' \<and> some_pixel img opaque \<longrightarrow>
      (\<exists>b. is_bbox (width img) (height img) (\<lambda>x y. opaque (pixel_at img x y)) b \<and>
           autocrop_to_subject cl img t = crop img b) \<and>
      edges_touch (autocrop_to_subject cl img t) opaque) \<and>
   (\<not> (mode img = asc ''RGBA'' \<and> some_pixel img opaque) \<and>
    some_pixel img (darker cl (mode img) t) \<longrightarrow>
      (\<exists>b. is_bbox (width img) (height img) (\<lambda>x y. darker cl (mode img) t (pixel_at img x y)) b \<and>
           autocrop_to_subject cl img t = crop img b)) \<and>
   (\<not> (mode img = asc ''RGBA'' \<and> some_pixel img opaque) \<and>
    \<not> some_pixel img (darker cl (mode img) t) \<longrightarrow>
      autocrop_to_subject cl img t = center_square_crop img \<and>
      width (autocrop_to_subject cl img t) = min (width img) (height img) \<and>
      height (autocrop_to_subject cl img t) = min (width img) (height img))"
proof (intro conjI impI)
  assume a: "mode img = asc ''RGBA'' \<and> some_pixel img opaque"
  then obtain b where b: "getbbox (width img) (height img) (alpha_band img) = Some b"
    using getbbox_alpha_None [of img] by (cases "getbbox (width img) (height img) (alpha_band img)") auto
  have r: "autocrop_to_subject cl img t = crop img b"
    using a b by (simp add: autocrop_to_subject_def)
  note bb = getbbox_alpha_Some [OF b]
  from bb r show "\<exists>b. is_bbox (width img) (height img) (\<lambda>x y. opaque (pixel_at img x y)) b \<and>
           autocrop_to_subject cl img t = crop img b" by blast
  from is_bbox_edges_touch [OF bb] r show "edges_touch (autocrop_to_subject cl img t) opaque" by simp
next
  assume a: "\<not> (mode img = asc ''RGBA'' \<and> some_pixel img opaque) \<and>
    some_pixel img (darker cl (mode img) t)"
  then have n: "(if mode img = asc ''RGBA''
            then getbbox (width img) (height img) (alpha_band img) else None) = None"
    using getbbox_alpha_None [of img] by auto
  from a obtain b where b: "getbbox (width img) (height img) (near_white_mask cl img t) = Some b"
    using getbbox_mask_None [of img cl t]
    by (cases "getbbox (width img) (height img) (near_white_mask cl img t)") auto
  have r: "autocrop_to_subject cl img t = crop img b"
    using n b by (simp add: autocrop_to_subject_def)
  with getbbox_mask_Some [OF b]
  show "\<exists>b. is_bbox (width img) (height img) (\<lambda>x y. darker cl (mode img) t (pixel_at img x y)) b \<and>
           autocrop_to_subject cl img t = crop img b" by blast
next
  assume a: "\<not> (mode img = asc ''RGBA'' \<and> some_pixel img opaque) \<and>
    \<not> some_pixel img (darker cl (mode img) t)"
  then have n: "(if mode img = asc ''RGBA''
            then getbbox (width img) (height img) (alpha_band img) else None) = None"
    using getbbox_alpha_None [of img] by auto
  from a have m: "getbbox (width img) (height img) (near_white_mask cl img t) = None"
    using getbbox_mask_None [of img cl t] by simp
  show r: "autocrop_to_subject cl img t = center_square_crop img"
    using n m by (simp add: autocrop_to_subject_def)
  show "width (autocrop_to_subject cl img t) = min (width img) (height img)"
    "height (autocrop_to_subject cl img t) = min (width img) (height img)"
    by (simp_all add: r center_square_crop_size)
qed

lemma some_pixelI: "x < width img \<Longrightarrow> y < height img \<Longrightarrow> S (pixel_at img x y) \<Longrightarrow> some_pixel img S"
  unfolding some_pixel_def by blast

theorem autocrop_to_subject_cases_witness:
  "(mode ex_logo = asc ''RGBA'' \<and> opaque (pixel_at ex_logo 1 1) \<and>
    edges_touch (autocrop_to_subject ex_L ex_logo 10) opaque) \<and>
   (mode ex_clear = asc ''RGBA'' \<and> darker ex_L (mode ex_clear) 10 (pixel_at ex_clear 0 0) \<and>
    (\<exists>b. is_bbox 2 1 (\<lambda>x y. darker ex_L (mode ex_clear) 10 (pixel_at ex_clear x y)) b \<and>
         autocrop_to_subject ex_L ex_clear 10 = crop ex_clear b)) \<and>
   (mode ex_white = asc ''RGB'' \<and> autocrop_to_subject ex_L ex_white 10 = center_square_crop ex_white \<and>
    width (autocrop_to_subject ex_L ex_white 10) = 2)"
proof (intro conjI)
  have o: "some_pixel ex_logo opaque"
    by (rule some_pixelI [of 1 _ 1]) (simp_all add: ex_logo_def opaque_def)
  show "mode ex_logo = asc ''RGBA''" by (simp add: ex_logo_def)
  show "opaque (pixel_at ex_logo 1 1)" by (simp add: ex_logo_def opaque_def)
  show "edges_touch (autocrop_to_subject ex_L ex_logo 10) opaque"
    using autocrop_to_subject_cases [of ex_logo ex_L 10] o by (simp add: ex_logo_def)
next
  have n: "\<not> some_pixel ex_clear opaque"
    by (simp add: some_pixel_def ex_clear_def opaque_def)
  have d: "some_pixel ex_clear (darker ex_L (mode ex_clear) 10)"
    by (rule some_pixelI [of 0 _ 0]) (simp_all add: ex_clear_def darker_def ex_L_def)
  show "mode ex_clear = asc ''RGBA''" by (simp add: ex_clear_def)
  show "darker ex_L (mode ex_clear) 10 (pixel_at ex_clear 0 0)"
    by (simp add: ex_clear_def darker_def ex_L_def)
  show "\<exists>b. is_bbox 2 1 (\<lambda>x y. darker ex_L (mode ex_clear) 10 (pixel_at ex_clear x y)) b \<and>
         autocrop_to_subject ex_L ex_clear 10 = crop ex_clear b"
    using autocrop_to_subject_cases [of ex_clear ex_L 10] n d by (simp add: ex_clear_def)
next
  have n: "\<not> some_pixel ex_white (darker ex_L (mode ex_white) 10)"
    by (simp add: some_pixel_def ex_white_def darker_def ex_L_def)
  have m: "mode ex_white \<noteq> asc ''RGBA''" by (simp add: ex_white_def asc_def)
  show "mode ex_white = asc ''RGB''" by (simp add: ex_white_def)
  show "autocrop_to_subject ex_L ex_white 10 = center_square_crop ex_white"
    using autocrop_to_subject_cases [of ex_white ex_L 10] n m by simp
  show "width (autocrop_to_subject ex_L ex_white 10) = 2"
    using autocrop_to_subject_cases [of ex_white ex_L 10] n m
    by (simp add: center_square_crop_size) (simp add: ex_white_def)
qed

text \<open>
  C7, as stated, fails for an RGBA image without any opaque pixel: no bounding box of
  non-transparent pixels exists, yet the result is not the centred square. The 2 x 1
  image of transparent black pixels is returned whole, by the luminance box.
\<close>

theorem autocrop_to_subject_transparent_counterexample:
  "mode ex_clear = asc ''RGBA'' \<and>
   getbbox (width ex_clear) (height ex_clear) (alpha_band ex_clear) = None \<and>
   width (autocrop_to_subject ex_L ex_clear 10) = 2 \<and>
   width (center_square_crop ex_clear) = 1 \<and>
   autocrop_to_subject ex_L ex_clear 10 \<noteq> center_square_crop ex_clear"
proof -
  have a: "getbbox (width ex_clear) (height ex_clear) (alpha_band ex_clear) = None"
    unfolding getbbox_alpha_None by (simp add: some_pixel_def ex_clear_def opaque_def)
  have m: "getbbox (width ex_clear) (height ex_clear) (near_white_mask ex_L ex_clear 10) = Some (0, 0, 2, 1)"
    by (simp add: getbbox_def ex_clear_def near_white_mask_def ex_L_def upt_conv_Cons Let_def)
  have w: "width (autocrop_to_subject ex_L ex_clear 10) = 2"
    by (simp add: autocrop_to_subject_def a m crop_def)
  have c: "width (center_square_crop ex_clear) = 1"
    by (simp add: center_square_crop_size ex_clear_def)
  from w c have "autocrop_to_subject ex_L ex_clear 10 \<noteq> center_square_crop ex_clear" by auto
  with a w c show ?thesis by (simp add: ex_clear_def)
qed

section \<open>Properties of the Creative Compositor\<close>

subsection \<open>File names\<close>

lemma dec_digits_nonempty [simp]: "dec_digits n \<noteq> []"
  by (subst dec_digits.simps) simp

lemma dec_digits_length [simp]: "Suc 0 \<le> length (dec_digits n)"
  using dec_digits_nonempty [of n] by (cases "dec_digits n") simp_all











subsection \<open>The file system\<close>

lemma map_of_fs_put: "map_of (fs_put p v f) = (map_of f)(p \<mapsto> v)"
  by (induction f) (auto simp: fun_eq_iff)

lemma mkdir_step_keeps:
  "map_of g q = Some v \<Longrightarrow>
   map_of (if map_of g d = None then fs_put d Dir g else g) q = Some v"
  by (auto simp: map_of_fs_put)

lemma ensure_dir_keeps:
  "map_of f q = Some v \<Longrightarrow> map_of (ensure_dir f d) q = Some v"
proof -
  have "map_of g q = Some v \<Longrightarrow>
        map_of (fold (\<lambda>k g. if map_of g (take k d) = None then fs_put (take k d) Dir g else g) ks g) q = Some v"
    for ks g
  proof (induction ks arbitrary: g)
    case Nil
    then show ?case by simp
  next
    case (Cons k ks)
    from mkdir_step_keeps [OF Cons.prems, of "take k d"] show ?case
      by (simp only: fold_simps Cons.IH)
  qed
  then show "map_of f q = Some v \<Longrightarrow> map_of (ensure_dir f d) q = Some v"
    by (simp add: ensure_dir_def)
qed

subsection \<open>Lines of the caption file\<close>




subsection \<open>The loop of the compositor\<close>






lemma open_image_ok:
  "map_of f p = Some (File c) \<Longrightarrow> image_open pil c = Some img \<Longrightarrow> open_image pil f p = Inr img"
  by (simp add: open_image_def)












text \<open>
  C10. For every argument tuple, \<open>generate_variations\<close> returns the same value and leaves
  the same file system as \<open>generate_variations_improved\<close>, and the default values of
  their keyword arguments are the same.
\<close>

theorem generate_variations_alias:
  "generate_variations pil f g logo_path product_path out_dir n csize brand_name product_name =
     generate_variations_improved pil f g logo_path product_path out_dir n csize brand_name product_name \<and>
   generate_variations_defaults = generate_variations_improved_defaults"
  by (simp add: generate_variations_def generate_variations_defaults_def
      generate_variations_improved_defaults_def)

text \<open>
  With a canvas of size 1 and at least one creative to draw, the compositor raises
  \<open>ZeroDivisionError\<close> in its first round, before any file is written.
\<close>

lemma generate_variations_improved_size_one:
  assumes logo: "map_of f logo_path = Some (File cl)" "image_open pil cl = Some l"
    and prod: "map_of f product_path = Some (File cp)" "image_open pil cp = Some pr"
    and n: "1 \<le> n"
  shows "generate_variations_improved pil f g logo_path product_path out_dir n 1 brand_name product_name
         = (ensure_dir f out_dir, Inl ZeroDivisionError)"
proof -
  let ?f0 = "ensure_dir f out_dir"
  have e1: "path_exists ?f0 logo_path" "path_exists ?f0 product_path"
    using ensure_dir_keeps [OF logo(1)] ensure_dir_keeps [OF prod(1)] by (simp_all add: path_exists_def)
  have o1: "open_image pil ?f0 logo_path = Inr l"
    using ensure_dir_keeps [OF logo(1)] logo(2) by (rule open_image_ok)
  have o2: "open_image pil ?f0 product_path = Inr pr"
    using ensure_dir_keeps [OF prod(1)] prod(2) by (rule open_image_ok)
  from n have "[0..<nat n] = 0 # [1..<nat n]" by (simp add: upt_conv_Cons)
  then have "creative_loop pil (convert_RGBA pil l) (convert_RGBA pil pr) out_dir 1
               brand_name product_name [0..<nat n] (?f0, [], g) = Inl (ZeroDivisionError, ?f0)"
    by (simp add: render_creative_def)
  with e1 o1 o2 show ?thesis
    by (simp add: generate_variations_improved_def Let_def)
qed

section \<open>Properties of the Packaging Layer and the Web Entrypoint\<close>

subsection \<open>Listing the file system\<close>



subsection \<open>The archive\<close>







subsection \<open>The files of a run\<close>





lemma line_file_name [simp]: "9 \<notin> set name \<Longrightarrow> line_file (name @ 9 # c) = name"
  by (simp add: line_file_def takeWhile_append)














end
